theory Spec2Isabelle
  imports Main "HOL-Library.Word" "HOL-Library.Product_Lexorder" "HOL-Library.Multiset"
begin

section \<open>The runtime's records (package docker)\<close>

text \<open>
  Modelled from the spec: the declarations of \<open>docker.Container\<close> and
  \<open>docker.ContainerStats\<close> are in the package docker, whose source file is not among
  the sources. The fields are the ones the service reads (the remote entity and the raw
  metrics sample of section 6 of the specification), with the types the tests of the
  service give them: \<open>uint64\<close> counters, \<open>uint32\<close> core count, \<open>int64\<close> creation
  time (only copied and compared, so its integer value). The nested structs of
  \<open>ContainerStats\<close> are flattened.
\<close>

record Container =
  ID :: string
  Names :: "string list"
  Image :: string
  State :: string
  Status :: string
  Created :: int

text \<open>
  Modelled from the spec: \<open>docker.ContainerStats\<close>, the raw metrics sample with the
  current and the previous cumulative CPU counters and the memory usage and limit.
\<close>

record ContainerStats =
  CPUStats_CPUUsage_TotalUsage :: "64 word"
  CPUStats_SystemCPUUsage :: "64 word"
  CPUStats_OnlineCPUs :: "32 word"
  PreCPUStats_CPUUsage_TotalUsage :: "64 word"
  PreCPUStats_SystemCPUUsage :: "64 word"
  MemoryStats_Usage :: "64 word"
  MemoryStats_Limit :: "64 word"

text \<open>A Go \<open>error\<close> value, by its message.\<close>

datatype error = Error string

section \<open>Data model (store/memory.go)\<close>

text \<open>
  A reading of the process clock (\<open>time.Now()\<close>), in nanoseconds. \<open>now.Sub(t)\<close> is
  the difference of two readings and a \<open>time.Duration\<close> is a number of nanoseconds;
  the saturation of \<open>Sub\<close> at the ends of the 64-bit range (292 years) is not modelled.
  Every store operation reads the clock once; the reading is the parameter \<open>now\<close>.
  A call of the service is modelled at one reading of the clock, as if the call took
  no time.
\<close>

type_synonym time = int

text \<open>
  A \<open>float64\<close>, held as its IEEE-754 bit pattern. Floating-point arithmetic is not
  modelled: the one float expression of the program (the CPU percentage) is a parameter
  of the functions that use it. The zero value of the type is the pattern 0.
\<close>

datatype float64 = Float64 "64 word"

definition float64_zero :: float64 where
  "float64_zero = Float64 0"

text \<open>\<open>store.Stats\<close>: the nested anonymous structs \<open>Memory\<close> and \<open>CPU\<close> are flattened.\<close>

record Stats =
  Memory_Usage :: "64 word"
  Memory_Limit :: "64 word"
  CPU_Usage :: float64
  CPU_Cores :: "32 word"
  CPU_SystemMS :: "64 word"

text \<open>The zero value \<open>store.Stats{}\<close>.\<close>

definition Stats_zero :: Stats where
  "Stats_zero = \<lparr>Memory_Usage = 0, Memory_Limit = 0, CPU_Usage = float64_zero,
     CPU_Cores = 0, CPU_SystemMS = 0\<rparr>"

text \<open>
  \<open>store.ContainerData\<close>. \<open>Created\<close> is an \<open>int64\<close> that is only copied and compared,
  so it is its integer value. \<open>Stats\<close> is a pointer: \<open>nil\<close> is \<open>None\<close>; a \<open>Stats\<close>
  struct is never written after it has been handed to the store, so the pointer is
  modelled by the value it points to.
\<close>

record ContainerData =
  ID :: string
  Names :: "string list"
  Image :: string
  State :: string
  Status :: string
  Created :: int
  Stats :: "Stats option"
  Updated :: time

text \<open>The zero value \<open>ContainerData{}\<close>; the zero \<open>time.Time\<close> is the origin of the clock.\<close>

definition ContainerData_zero :: ContainerData where
  "ContainerData_zero = \<lparr>ID = [], Names = [], Image = [], State = [], Status = [],
     Created = 0, Stats = None, Updated = 0\<rparr>"

definition StateStarting :: string where
  "StateStarting = ''starting''"

definition StateStopping :: string where
  "StateStopping = ''stopping''"

text \<open>
  \<open>store.Store\<close>: the map \<open>containers\<close> and the duration \<open>ttl\<close>. The mutex serialises
  the operations, each of which is modelled as one atomic step on the state.
\<close>

record Store =
  containers :: "string \<rightharpoonup> ContainerData"
  ttl :: int

definition NewStore :: "int \<Rightarrow> Store" where
  "NewStore d = \<lparr>containers = Map.empty, ttl = d\<rparr>"

section \<open>Store operations (store/memory.go)\<close>

text \<open>\<open>RemoveStaleData\<close>: deletes every key whose entry has \<open>now.Sub(Updated) > ttl\<close>.\<close>

definition RemoveStaleData :: "Store \<Rightarrow> time \<Rightarrow> Store" where
  "RemoveStaleData s now =
     s\<lparr>containers := (\<lambda>cid. case containers s cid of
          None \<Rightarrow> None
        | Some container \<Rightarrow>
            if now - Updated container > ttl s then None else Some container)\<rparr>"

text \<open>\<open>Update\<close>: the lookup of the existing entry reads the map itself, not \<open>Get\<close>.\<close>

definition Update :: "Store \<Rightarrow> time \<Rightarrow> ContainerData \<Rightarrow> Store" where
  "Update s now container =
     (let container1 =
        (case containers s (ID container) of
           Some existing \<Rightarrow>
             if State container \<noteq> ''exited''
             then container\<lparr>Stats := Stats existing\<rparr>
             else container
         | None \<Rightarrow> container)
      in s\<lparr>containers := (containers s)(ID container \<mapsto> container1\<lparr>Updated := now\<rparr>)\<rparr>)"

text \<open>\<open>UpdateStats\<close>: the returned flag and the store after the call.\<close>

definition UpdateStats :: "Store \<Rightarrow> time \<Rightarrow> string \<Rightarrow> Stats option \<Rightarrow> bool \<times> Store" where
  "UpdateStats s now cid stats =
     (case containers s cid of
        Some container \<Rightarrow>
          (True, s\<lparr>containers := (containers s)(cid \<mapsto> container\<lparr>Stats := stats, Updated := now\<rparr>)\<rparr>)
      | None \<Rightarrow> (False, s))"

text \<open>
  \<open>List\<close>: Go visits the keys of a map in an unspecified order; \<open>ks\<close> is the order of
  this visit, an enumeration of the keys of the map (\<open>range_order\<close>).
\<close>

definition range_order :: "Store \<Rightarrow> string list \<Rightarrow> bool" where
  "range_order s ks \<longleftrightarrow> distinct ks \<and> set ks = dom (containers s)"

definition List :: "Store \<Rightarrow> time \<Rightarrow> string list \<Rightarrow> ContainerData list" where
  "List s now ks =
     List.map_filter (\<lambda>cid. case containers s cid of
          None \<Rightarrow> None
        | Some container \<Rightarrow>
            if now - Updated container \<le> ttl s then Some container else None) ks"

text \<open>\<open>Get\<close>: the entry and the flag \<open>exists\<close>.\<close>

definition Get :: "Store \<Rightarrow> time \<Rightarrow> string \<Rightarrow> ContainerData \<times> bool" where
  "Get s now cid =
     (case containers s cid of
        None \<Rightarrow> (ContainerData_zero, False)
      | Some container \<Rightarrow>
          if now - Updated container > ttl s then (ContainerData_zero, False)
          else (container, True))"


section \<open>The service (package service)\<close>

text \<open>
  The sources hold two revisions of the service. In one, \<open>Sync\<close> is made of
  \<open>SyncContainers\<close>, \<open>SyncStats\<close> and \<open>RemoveStaleData\<close>; this is the revision that
  the specification describes, and its \<open>Sync\<close> is the constant \<open>Sync\<close> below. In the
  other (\<open>service/containers.go\<close>) \<open>Sync\<close> has the same two loops in its own body and
  fetches the stats inside the second loop; it is the constant \<open>Sync_sequential\<close>.
  \<open>StartContainer\<close>, \<open>StopContainer\<close> and the sorting are the same in both.

  The service holds a client of the runtime and the store. The store is threaded
  through every function; the answers of the client are parameters: \<open>listing\<close> is what
  \<open>ListContainers\<close> returns (the error, or the containers: the variable \<open>listed\<close>,
  which the source calls \<open>containers\<close> as it does the map of the store), \<open>getStats\<close> what
  \<open>GetContainerStats\<close> returns for an ID, \<open>startErr\<close> and \<open>stopErr\<close> what the
  commands return (\<open>None\<close> is \<open>nil\<close>). A call of the service is modelled at one
  reading \<open>now\<close> of the clock, and \<open>ks\<close> is the order in which its call of
  \<open>store.List\<close> visits the map.
\<close>

definition Container_zero :: Container where
  "Container_zero = \<lparr>Container.ID = [], Container.Names = [], Container.Image = [],
     Container.State = [], Container.Status = [], Container.Created = 0\<rparr>"

text \<open>The lookup map of \<open>SyncContainers\<close>: a later container of the same ID replaces an earlier one.\<close>

definition containerMap :: "Container list \<Rightarrow> (string \<rightharpoonup> Container)" where
  "containerMap cs = foldl (\<lambda>m c. m(Container.ID c \<mapsto> c)) Map.empty cs"

text \<open>
  The literal \<open>store.ContainerData{ID: c.ID, Names: c.Names, Image: c.Image, State: c.State,
  Status: c.Status, Created: c.Created}\<close>: the fields left out are zero.
\<close>

definition fromContainer :: "Container \<Rightarrow> ContainerData" where
  "fromContainer c = \<lparr>ID = Container.ID c, Names = Container.Names c,
     Image = Container.Image c, State = Container.State c, Status = Container.Status c,
     Created = Container.Created c, Stats = None, Updated = 0\<rparr>"

text \<open>The body of the first loop of \<open>SyncContainers\<close>, for one entry of \<open>store.List()\<close>.\<close>

definition resolveTransition ::
  "(string \<rightharpoonup> Container) \<Rightarrow> time \<Rightarrow> Store \<Rightarrow> ContainerData \<Rightarrow> Store" where
  "resolveTransition cm now s stored =
     (let (dockerC, exists) =
        (case cm (ID stored) of Some c \<Rightarrow> (c, True) | None \<Rightarrow> (Container_zero, False))
      in if State stored = StateStarting then
           (if \<not> exists \<or> Container.State dockerC = ''running''
            then (if exists then Update s now (fromContainer dockerC) else s)
            else s)
         else if State stored = StateStopping then
           (if \<not> exists \<or> Container.State dockerC = ''exited''
            then (if exists then Update s now (fromContainer dockerC) else s)
            else s)
         else s)"

text \<open>The body of the second loop, for one container of the listing.\<close>

definition mergeContainer :: "time \<Rightarrow> Store \<Rightarrow> Container \<Rightarrow> Store" where
  "mergeContainer now s c =
     (let (stored, exists) = Get s now (Container.ID c)
      in if exists \<and> (State stored = StateStarting \<or> State stored = StateStopping)
         then s
         else Update s now (fromContainer c))"

definition SyncContainers ::
  "(error + Container list) \<Rightarrow> Store \<Rightarrow> time \<Rightarrow> string list
     \<Rightarrow> (error + Container list) \<times> Store" where
  "SyncContainers listing s now ks =
     (case listing of
        Inl err \<Rightarrow> (Inl err, s)
      | Inr listed \<Rightarrow>
          (let cm = containerMap listed;
               s1 = foldl (resolveTransition cm now) s (List s now ks);
               s2 = foldl (mergeContainer now) s1 listed
           in (Inr listed, s2)))"

text \<open>
  The conversion of a raw sample in \<open>SyncStats\<close>. The two deltas are differences of
  \<open>uint64\<close> counters: they wrap around and are never negative. \<open>cpuPercent\<close> stands for
  the floating-point expression computed when both deltas are positive, as a function of
  the deltas and of \<open>OnlineCPUs\<close>; when it is skipped the field keeps the zero of the
  fresh \<open>store.Stats{}\<close>.
\<close>

definition storeStats ::
  "(64 word \<Rightarrow> 64 word \<Rightarrow> 32 word \<Rightarrow> float64) \<Rightarrow> ContainerStats \<Rightarrow> Stats" where
  "storeStats cpuPercent stats =
     (let cpuDelta = CPUStats_CPUUsage_TotalUsage stats - PreCPUStats_CPUUsage_TotalUsage stats;
          systemDelta = CPUStats_SystemCPUUsage stats - PreCPUStats_SystemCPUUsage stats
      in \<lparr>Memory_Usage = MemoryStats_Usage stats,
          Memory_Limit = MemoryStats_Limit stats,
          CPU_Usage = (if systemDelta > 0 \<and> cpuDelta > 0
                       then cpuPercent cpuDelta systemDelta (CPUStats_OnlineCPUs stats)
                       else float64_zero),
          CPU_Cores = CPUStats_OnlineCPUs stats,
          CPU_SystemMS = CPUStats_SystemCPUUsage stats div 1000000\<rparr>)"

text \<open>
  \<open>SyncStats\<close> starts one goroutine for each running container and waits for all of
  them; each goroutine ends with one \<open>UpdateStats\<close>, which the mutex of the store makes
  atomic. The model runs the goroutines one after the other in the order of the listing.
\<close>

definition syncStatsOne ::
  "(string \<Rightarrow> error + ContainerStats) \<Rightarrow> (64 word \<Rightarrow> 64 word \<Rightarrow> 32 word \<Rightarrow> float64)
     \<Rightarrow> time \<Rightarrow> Store \<Rightarrow> Container \<Rightarrow> Store" where
  "syncStatsOne getStats cpuPercent now s c =
     (if Container.State c = ''running'' then
        (case getStats (Container.ID c) of
           Inl err \<Rightarrow> s
         | Inr stats \<Rightarrow>
             snd (UpdateStats s now (Container.ID c) (Some (storeStats cpuPercent stats))))
      else s)"

definition SyncStats ::
  "(string \<Rightarrow> error + ContainerStats) \<Rightarrow> (64 word \<Rightarrow> 64 word \<Rightarrow> 32 word \<Rightarrow> float64)
     \<Rightarrow> Store \<Rightarrow> time \<Rightarrow> Container list \<Rightarrow> Store" where
  "SyncStats getStats cpuPercent s now listed =
     foldl (syncStatsOne getStats cpuPercent now) s listed"

text \<open>\<open>Sync\<close>: the returned error (\<open>None\<close> is \<open>nil\<close>) and the store after the pass.\<close>

definition Sync ::
  "(error + Container list) \<Rightarrow> (string \<Rightarrow> error + ContainerStats)
     \<Rightarrow> (64 word \<Rightarrow> 64 word \<Rightarrow> 32 word \<Rightarrow> float64)
     \<Rightarrow> Store \<Rightarrow> time \<Rightarrow> string list \<Rightarrow> error option \<times> Store" where
  "Sync listing getStats cpuPercent s now ks =
     (case SyncContainers listing s now ks of
        (Inl err, s1) \<Rightarrow> (Some err, s1)
      | (Inr listed, s1) \<Rightarrow>
          (None, RemoveStaleData (SyncStats getStats cpuPercent s1 now listed) now))"

text \<open>
  \<open>Sync\<close> of \<open>service/containers.go\<close>. The body of its second loop skips a container
  in transition as \<open>mergeContainer\<close> does, and after the update of a running container
  fetches and stores its stats at once. The conversion of the sample has the shape of
  \<open>storeStats\<close>, with another floating-point expression for \<open>cpuPercent\<close>.
\<close>

definition mergeContainerStats ::
  "(string \<Rightarrow> error + ContainerStats) \<Rightarrow> (64 word \<Rightarrow> 64 word \<Rightarrow> 32 word \<Rightarrow> float64)
     \<Rightarrow> time \<Rightarrow> Store \<Rightarrow> Container \<Rightarrow> Store" where
  "mergeContainerStats getStats cpuPercent now s c =
     (let (stored, exists) = Get s now (Container.ID c)
      in if exists \<and> (State stored = StateStarting \<or> State stored = StateStopping)
         then s
         else (let s1 = Update s now (fromContainer c)
               in if Container.State c = ''running'' then
                    (case getStats (Container.ID c) of
                       Inl err \<Rightarrow> s1
                     | Inr stats \<Rightarrow>
                         snd (UpdateStats s1 now (Container.ID c)
                                (Some (storeStats cpuPercent stats))))
                  else s1))"

definition Sync_sequential ::
  "(error + Container list) \<Rightarrow> (string \<Rightarrow> error + ContainerStats)
     \<Rightarrow> (64 word \<Rightarrow> 64 word \<Rightarrow> 32 word \<Rightarrow> float64)
     \<Rightarrow> Store \<Rightarrow> time \<Rightarrow> string list \<Rightarrow> error option \<times> Store" where
  "Sync_sequential listing getStats cpuPercent s now ks =
     (case listing of
        Inl err \<Rightarrow> (Some err, s)
      | Inr listed \<Rightarrow>
          (let cm = containerMap listed;
               s1 = foldl (resolveTransition cm now) s (List s now ks);
               s2 = foldl (mergeContainerStats getStats cpuPercent now) s1 listed
           in (None, RemoveStaleData s2 now)))"

text \<open>
  The snapshot that \<open>StartContainer\<close> and \<open>StopContainer\<close> begin with: the entry that
  \<open>Get\<close> returns, or, when \<open>Get\<close> finds none and the listing succeeds, the first
  container of the listing with the ID (without its state and status), or else what
  \<open>Get\<close> returned on the miss.
\<close>

definition seedExisting ::
  "(error + Container list) \<Rightarrow> Store \<Rightarrow> time \<Rightarrow> string \<Rightarrow> ContainerData" where
  "seedExisting listing s now cid =
     (let (existing, exists) = Get s now cid
      in if \<not> exists then
           (case listing of
              Inr listed \<Rightarrow>
                (case find (\<lambda>c. Container.ID c = cid) listed of
                   Some c \<Rightarrow> \<lparr>ID = Container.ID c, Names = Container.Names c,
                              Image = Container.Image c, State = [], Status = [],
                              Created = Container.Created c, Stats = None, Updated = 0\<rparr>
                 | None \<Rightarrow> existing)
            | Inl err \<Rightarrow> existing)
         else existing)"

text \<open>
  The rest of \<open>StartContainer\<close> and \<open>StopContainer\<close>, which differ in the marker only:
  the optimistic write, the command (\<open>cmdErr\<close> is what it returns) and, when it fails, the
  second listing \<open>requery\<close> and the write of the state found there.
\<close>

definition transitionContainer ::
  "string \<Rightarrow> string \<Rightarrow> ContainerData \<Rightarrow> error option \<Rightarrow> (error + Container list)
     \<Rightarrow> Store \<Rightarrow> time \<Rightarrow> string \<Rightarrow> error option \<times> Store" where
  "transitionContainer marker label existing0 cmdErr requery s now cid =
     (let existing = existing0\<lparr>State := marker, Status := label\<rparr>;
          s1 = Update s now existing
      in case cmdErr of
           Some err \<Rightarrow>
             (case requery of
                Inr listed \<Rightarrow>
                  (case find (\<lambda>c. Container.ID c = cid) listed of
                     Some c \<Rightarrow>
                       (Some err, Update s1 now
                          (existing\<lparr>State := Container.State c, Status := Container.Status c\<rparr>))
                   | None \<Rightarrow> (Some err, s1))
              | Inl listErr \<Rightarrow> (Some err, s1))
         | None \<Rightarrow> (None, s1))"

definition StartContainer ::
  "(error + Container list) \<Rightarrow> error option \<Rightarrow> (error + Container list)
     \<Rightarrow> Store \<Rightarrow> time \<Rightarrow> string \<Rightarrow> error option \<times> Store" where
  "StartContainer listing startErr requery s now cid =
     transitionContainer StateStarting ''Starting'' (seedExisting listing s now cid)
       startErr requery s now cid"

definition StopContainer ::
  "(error + Container list) \<Rightarrow> error option \<Rightarrow> (error + Container list)
     \<Rightarrow> Store \<Rightarrow> time \<Rightarrow> string \<Rightarrow> error option \<times> Store" where
  "StopContainer listing stopErr requery s now cid =
     transitionContainer StateStopping ''Stopping'' (seedExisting listing s now cid)
       stopErr requery s now cid"

subsection \<open>Display order\<close>

definition getStatusPriority :: "string \<Rightarrow> int" where
  "getStatusPriority state =
     (if state = ''running'' then 0
      else if state = StateStopping then 1
      else if state = StateStarting then 2
      else if state = ''exited'' then 3
      else 4)"

text \<open>The comparison function that \<open>sortContainers\<close> gives to \<open>sort.Slice\<close>.\<close>

definition sortContainers_less :: "ContainerData \<Rightarrow> ContainerData \<Rightarrow> bool" where
  "sortContainers_less ci cj =
     (let iPriority = getStatusPriority (State ci);
          jPriority = getStatusPriority (State cj)
      in if iPriority \<noteq> jPriority then iPriority < jPriority
         else (case (Stats ci, Stats cj) of
                 (Some si, Some sj) \<Rightarrow>
                   if Memory_Usage si \<noteq> Memory_Usage sj
                   then Memory_Usage si > Memory_Usage sj
                   else Created ci > Created cj
               | (Some si, None) \<Rightarrow> True
               | (None, Some sj) \<Rightarrow> False
               | (None, None) \<Rightarrow> Created ci > Created cj))"

text \<open>
  \<open>sort.Slice\<close> is a routine of Go's library: it permutes the slice so that no element
  is less than an element before it, and promises no order among elements neither of
  which is less than the other. It is modelled by an insertion sort with the same
  comparison function, which is one such permutation.
\<close>

fun sortSlice_insert :: "('a \<Rightarrow> 'a \<Rightarrow> bool) \<Rightarrow> 'a \<Rightarrow> 'a list \<Rightarrow> 'a list" where
  "sortSlice_insert lessf x [] = [x]"
| "sortSlice_insert lessf x (y # ys) =
     (if lessf x y then x # y # ys else y # sortSlice_insert lessf x ys)"

definition sortSlice :: "('a \<Rightarrow> 'a \<Rightarrow> bool) \<Rightarrow> 'a list \<Rightarrow> 'a list" where
  "sortSlice lessf xs = foldr (sortSlice_insert lessf) xs []"

definition sortContainers :: "ContainerData list \<Rightarrow> ContainerData list" where
  "sortContainers cs = sortSlice sortContainers_less cs"

text \<open>\<open>ContainerService.List\<close> and \<open>ContainerService.Get\<close>.\<close>

definition service_List :: "Store \<Rightarrow> time \<Rightarrow> string list \<Rightarrow> ContainerData list" where
  "service_List s now ks = sortContainers (List s now ks)"

definition service_Get :: "Store \<Rightarrow> time \<Rightarrow> string \<Rightarrow> ContainerData \<times> bool" where
  "service_Get s now cid = Get s now cid"

section \<open>The order of the specification\<close>

text \<open>
  The display order in the words of the specification: status priority
  running(0), stopping(1), starting(2), exited(3), other(4); then entries with stats
  before entries without, and among entries with stats the larger memory usage first;
  then the later creation time first. The key of an entry is the tuple of these four
  criteria, each turned so that the entry to show first has the smaller component, and
  keys are compared lexicographically.
\<close>

definition spec_priority :: "string \<Rightarrow> nat" where
  "spec_priority state =
     (if state = ''running'' then 0
      else if state = ''stopping'' then 1
      else if state = ''starting'' then 2
      else if state = ''exited'' then 3
      else 4)"

definition spec_display_key :: "ContainerData \<Rightarrow> nat \<times> nat \<times> int \<times> int" where
  "spec_display_key c =
     (spec_priority (State c),
      (case Stats c of Some st \<Rightarrow> 0 | None \<Rightarrow> 1),
      (case Stats c of Some st \<Rightarrow> - uint (Memory_Usage st) | None \<Rightarrow> 0),
      - Created c)"

section \<open>Notions used in the statements\<close>

text \<open>
  Every entry lies under its own ID: \<open>Update\<close> writes an entry under its ID and
  \<open>UpdateStats\<close> rewrites the entry of a key in place, so every store that the
  operations build from \<open>NewStore\<close> is of this kind.
\<close>

definition wf_store :: "Store \<Rightarrow> bool" where
  "wf_store s \<longleftrightarrow> (\<forall>k x. containers s k = Some x \<longrightarrow> ID x = k)"

text \<open>Two stores with the same entry (or none) under the key \<open>k\<close> and the same time to live.\<close>

definition agree :: "string \<Rightarrow> Store \<Rightarrow> Store \<Rightarrow> bool" where
  "agree k s s' \<longleftrightarrow> containers s k = containers s' k \<and> ttl s = ttl s'"

text \<open>The six fields that a reconciliation write takes from the listing.\<close>

definition matches_listing :: "ContainerData \<Rightarrow> Container \<Rightarrow> bool" where
  "matches_listing e d \<longleftrightarrow>
     ID e = Container.ID d \<and> Names e = Container.Names d \<and> Image e = Container.Image d \<and>
     State e = Container.State d \<and> Status e = Container.Status d \<and>
     Created e = Container.Created d"

text \<open>
  An entry in a sticky state together with the state of the runtime that completes its
  transition: \<open>starting\<close> with \<open>running\<close>, \<open>stopping\<close> with \<open>exited\<close>.
\<close>

definition in_transition :: "ContainerData \<Rightarrow> string \<Rightarrow> bool" where
  "in_transition e fin \<longleftrightarrow>
     State e = StateStarting \<and> fin = ''running'' \<or> State e = StateStopping \<and> fin = ''exited''"

section \<open>Example data\<close>

definition example_exited :: Container where
  "example_exited = \<lparr>Container.ID = ''abc'', Container.Names = [''web''],
     Container.Image = ''nginx'', Container.State = ''exited'',
     Container.Status = ''Exited (1) 2 seconds ago'', Container.Created = 1700000000\<rparr>"

definition example_running :: Container where
  "example_running =
     example_exited\<lparr>Container.State := ''running'', Container.Status := ''Up 2 hours''\<rparr>"

text \<open>A raw sample whose CPU counter has not moved since the previous reading.\<close>

definition example_sample :: ContainerStats where
  "example_sample = \<lparr>CPUStats_CPUUsage_TotalUsage = 90000000,
     CPUStats_SystemCPUUsage = 1000000000, CPUStats_OnlineCPUs = 4,
     PreCPUStats_CPUUsage_TotalUsage = 90000000, PreCPUStats_SystemCPUUsage = 990000000,
     MemoryStats_Usage = 104857600, MemoryStats_Limit = 1073741824\<rparr>"

definition example_getStats :: "string \<Rightarrow> error + ContainerStats" where
  "example_getStats cid = Inr example_sample"

text \<open>A stand-in for the percentage: the bit pattern of 100.0, whatever the deltas.\<close>

definition example_cpuPercent :: "64 word \<Rightarrow> 64 word \<Rightarrow> 32 word \<Rightarrow> float64" where
  "example_cpuPercent cpuDelta systemDelta cores = Float64 0x4059000000000000"

text \<open>Stored stats with a CPU usage of 25.5 (bit pattern \<open>0x4039800000000000\<close>).\<close>

definition example_stats :: Stats where
  "example_stats = \<lparr>Memory_Usage = 1048576, Memory_Limit = 2097152,
     CPU_Usage = Float64 0x4039800000000000, CPU_Cores = 4, CPU_SystemMS = 1000\<rparr>"

definition example_entry :: "string \<Rightarrow> time \<Rightarrow> ContainerData" where
  "example_entry state t = \<lparr>ID = ''abc'', Names = [''web''], Image = ''nginx'', State = state,
     Status = ''Up 2 hours'', Created = 1700000000, Stats = Some example_stats, Updated = t\<rparr>"

text \<open>A store with a time to live of 60 that holds the one entry, in the given state, written at \<open>t\<close>.\<close>

definition example_store :: "string \<Rightarrow> time \<Rightarrow> Store" where
  "example_store state t = \<lparr>containers = [''abc'' \<mapsto> example_entry state t], ttl = 60\<rparr>"

section \<open>The store operations at one key\<close>

lemma Update_lookup:
  "containers (Update s now c) k =
     (if k = ID c
      then Some (c\<lparr>Stats := (case containers s (ID c) of
                                Some existing \<Rightarrow>
                                  if State c \<noteq> ''exited'' then Stats existing else Stats c
                              | None \<Rightarrow> Stats c),
                   Updated := now\<rparr>)
      else containers s k)"
  by (simp add: Update_def Let_def split: option.splits)

lemma Update_ttl [simp]: "ttl (Update s now c) = ttl s"
  by (simp add: Update_def Let_def)

lemma set_List:
  "set (List s now ks) =
     {e. \<exists>k \<in> set ks. containers s k = Some e \<and> now - Updated e \<le> ttl s}"
  by (induction ks) (auto simp: List_def split: option.splits if_splits)

lemma RemoveStaleData_lookup:
  "containers (RemoveStaleData s now) k =
     (case containers s k of
        None \<Rightarrow> None
      | Some e \<Rightarrow> if now - Updated e > ttl s then None else Some e)"
  by (simp add: RemoveStaleData_def)

text \<open>The operations keep every entry under its own ID.\<close>

lemma NewStore_wf: "wf_store (NewStore d)"
  by (simp add: wf_store_def NewStore_def)

lemma Update_wf: "wf_store s \<Longrightarrow> wf_store (Update s now c)"
  by (simp add: wf_store_def Update_lookup)

lemma UpdateStats_wf: "wf_store s \<Longrightarrow> wf_store (snd (UpdateStats s now cid stats))"
  by (auto simp: wf_store_def UpdateStats_def split: option.splits if_splits)

lemma RemoveStaleData_wf: "wf_store s \<Longrightarrow> wf_store (RemoveStaleData s now)"
  by (auto simp: wf_store_def RemoveStaleData_lookup split: option.splits if_splits)

lemma example_store_wf: "wf_store (example_store st t)"
  by (auto simp: wf_store_def example_store_def example_entry_def split: if_splits)

lemma example_store_order: "range_order (example_store st t) [''abc'']"
  by (simp add: range_order_def example_store_def)

lemmas example_defs = example_store_def example_entry_def example_stats_def
  example_running_def example_exited_def example_getStats_def example_sample_def
  example_cpuPercent_def

section \<open>The store: stats under update\<close>

text \<open>
  Claim C2, as the code has it. After \<open>Update s now c\<close> the entry under the ID of
  \<open>c\<close> is \<open>c\<close> stamped with the clock reading, and its stats are: the stats stored
  before, whatever \<open>c\<close> carries, when an entry existed and the state of \<open>c\<close> is not
  \<open>exited\<close>; the stats that \<open>c\<close> itself carries when its state is \<open>exited\<close> or
  no entry existed. So an \<open>exited\<close> snapshot that carries no stats, as every
  snapshot that the reconciler writes, is stored without stats.
\<close>

theorem Update_stats:
  "(\<forall>e. containers s (ID c) = Some e \<and> State c \<noteq> ''exited'' \<longrightarrow>
      containers (Update s now c) (ID c) = Some (c\<lparr>Stats := Stats e, Updated := now\<rparr>)) \<and>
   (State c = ''exited'' \<or> containers s (ID c) = None \<longrightarrow>
      containers (Update s now c) (ID c) = Some (c\<lparr>Stats := Stats c, Updated := now\<rparr>)) \<and>
   (State c = ''exited'' \<and> Stats c = None \<longrightarrow>
      (\<exists>e'. containers (Update s now c) (ID c) = Some e' \<and> Stats e' = None))"
  by (auto simp: Update_lookup split: option.splits)

theorem Update_stats_witness:
  "containers (example_store ''running'' 90) ''abc'' = Some (example_entry ''running'' 90) \<and>
   State (fromContainer example_running) \<noteq> ''exited'' \<and>
   Stats (fromContainer example_running) = None \<and>
   containers (Update (example_store ''running'' 90) 100 (fromContainer example_running)) ''abc''
     = Some ((fromContainer example_running)\<lparr>Stats := Some example_stats, Updated := 100\<rparr>) \<and>
   State (fromContainer example_exited) = ''exited'' \<and>
   (\<exists>e'. containers (Update (example_store ''running'' 90) 100 (fromContainer example_exited))
            ''abc'' = Some e' \<and> Stats e' = None)"
proof -
  have id: "ID (fromContainer example_running) = ''abc''" "ID (fromContainer example_exited) = ''abc''"
    by (simp_all add: fromContainer_def example_defs)
  have h: "containers (example_store ''running'' 90) ''abc'' = Some (example_entry ''running'' 90)"
    "State (fromContainer example_running) \<noteq> ''exited''"
    "Stats (fromContainer example_running) = None"
    "State (fromContainer example_exited) = ''exited''"
    "Stats (fromContainer example_exited) = None"
    "Stats (example_entry ''running'' 90) = Some example_stats"
    by (simp_all add: fromContainer_def example_defs)
  from Update_stats [of "example_store ''running'' 90" "fromContainer example_running" 100] h id
  have "containers (Update (example_store ''running'' 90) 100 (fromContainer example_running)) ''abc''
     = Some ((fromContainer example_running)\<lparr>Stats := Some example_stats, Updated := 100\<rparr>)"
    by simp
  moreover
  from Update_stats [of "example_store ''running'' 90" "fromContainer example_exited" 100] h id
  have "\<exists>e'. containers (Update (example_store ''running'' 90) 100 (fromContainer example_exited))
            ''abc'' = Some e' \<and> Stats e' = None"
    by simp
  ultimately show ?thesis using h by simp
qed

text \<open>
  Claim C2 as stated fails: an entry exists, the snapshot has the state \<open>exited\<close>
  and carries stats (as the snapshot that \<open>StopContainer\<close> writes back after a failed
  command does), and the stored entry has the stats of the snapshot, not none.
\<close>

theorem Update_exited_keeps_incoming_stats:
  "containers (example_store ''running'' 90) ''abc'' = Some (example_entry ''running'' 90) \<and>
   containers (Update (example_store ''running'' 90) 100 (example_entry ''exited'' 90)) ''abc''
     = Some (example_entry ''exited'' 100) \<and>
   Stats (example_entry ''exited'' 100) = Some example_stats"
  by (simp add: Update_lookup example_defs)

section \<open>The store: time to live\<close>

text \<open>
  Claim C3. Both writers stamp the entry they store with their clock reading. For an
  entry \<open>e\<close> of the map stamped \<open>T\<close>: at a reading \<open>now\<close> with \<open>now - T \<le> ttl\<close>,
  \<open>Get\<close> returns it with true, \<open>List\<close> contains it and \<open>RemoveStaleData\<close> keeps it;
  at a reading with \<open>now - T > ttl\<close>, \<open>Get\<close> returns false and \<open>List\<close> does not
  contain it although the map still holds it, and \<open>RemoveStaleData\<close> deletes it.
  \<open>RemoveStaleData\<close> adds no key.
\<close>

theorem TTL_visibility:
  assumes "containers s k = Some e" and "Updated e = T" and "range_order s ks"
  shows "(now - T \<le> ttl s \<longrightarrow>
            Get s now k = (e, True) \<and> e \<in> set (List s now ks) \<and>
            containers (RemoveStaleData s now) k = Some e) \<and>
         (now - T > ttl s \<longrightarrow>
            Get s now k = (ContainerData_zero, False) \<and> e \<notin> set (List s now ks) \<and>
            containers (RemoveStaleData s now) k = None) \<and>
         (\<forall>k'. containers s k' = None \<longrightarrow> containers (RemoveStaleData s now) k' = None) \<and>
         (\<exists>e'. containers (Update s T' c) (ID c) = Some e' \<and> Updated e' = T') \<and>
         (\<exists>e'. containers (snd (UpdateStats s T' k stats)) k = Some e' \<and> Updated e' = T')"
proof -
  from assms have "k \<in> set ks"
    by (auto simp: range_order_def dom_def)
  with assms(1,2) show ?thesis
    by (auto simp: Update_lookup Get_def set_List RemoveStaleData_lookup UpdateStats_def)
qed

theorem TTL_visibility_witness:
  "containers (Update (NewStore 60) 10 (fromContainer example_running)) ''abc''
     = Some ((fromContainer example_running)\<lparr>Updated := 10\<rparr>) \<and>
   range_order (Update (NewStore 60) 10 (fromContainer example_running)) [''abc''] \<and>
   (50::int) - 10 \<le> ttl (Update (NewStore 60) 10 (fromContainer example_running)) \<and>
   Get (Update (NewStore 60) 10 (fromContainer example_running)) 50 ''abc''
     = ((fromContainer example_running)\<lparr>Updated := 10\<rparr>, True) \<and>
   List (Update (NewStore 60) 10 (fromContainer example_running)) 50 [''abc'']
     = [(fromContainer example_running)\<lparr>Updated := 10\<rparr>] \<and>
   (100::int) - 10 > ttl (Update (NewStore 60) 10 (fromContainer example_running)) \<and>
   Get (Update (NewStore 60) 10 (fromContainer example_running)) 100 ''abc''
     = (ContainerData_zero, False) \<and>
   List (Update (NewStore 60) 10 (fromContainer example_running)) 100 [''abc''] = [] \<and>
   containers (RemoveStaleData (Update (NewStore 60) 10 (fromContainer example_running)) 100)
     ''abc'' = None"
proof -
  let ?s = "Update (NewStore 60) 10 (fromContainer example_running)"
  let ?e = "(fromContainer example_running)\<lparr>Updated := 10\<rparr>"
  have id: "ID (fromContainer example_running) = ''abc''"
    by (simp add: fromContainer_def example_defs)
  have stored: "containers ?s ''abc'' = Some ?e"
    by (simp add: Update_lookup NewStore_def id)
  have stamp: "Updated ?e = 10"
    by simp
  have ro: "range_order ?s [''abc'']"
    by (auto simp: range_order_def Update_lookup NewStore_def id dom_def)
  have t: "(50::int) - 10 \<le> ttl ?s" "(100::int) - 10 > ttl ?s"
    by (simp_all add: NewStore_def)
  have lists: "List ?s 50 [''abc''] = [?e]" "List ?s 100 [''abc''] = []"
    by (simp_all add: List_def stored) (simp_all add: NewStore_def)
  from TTL_visibility [OF stored stamp ro, of 50] t
  have "Get ?s 50 ''abc'' = (?e, True)"
    by simp
  moreover
  from TTL_visibility [OF stored stamp ro, of 100] t
  have "Get ?s 100 ''abc'' = (ContainerData_zero, False) \<and>
        containers (RemoveStaleData ?s 100) ''abc'' = None"
    by simp
  ultimately show ?thesis using stored ro t lists by simp
qed

text \<open>
  Claim C10. An entry that is stale at the reading \<open>now\<close> and still in the map is
  invisible to \<open>Get\<close>; \<open>Update\<close> with a snapshot of the same ID whose state is not
  \<open>exited\<close> reads it from the map all the same and carries its stats onto the snapshot,
  and the stored entry, stamped \<open>now\<close>, is returned by \<open>Get\<close> and \<open>List\<close> at every
  reading \<open>t\<close> with \<open>t - now \<le> ttl\<close>.
\<close>

theorem stale_entry_resurrected:
  assumes "containers s (ID c) = Some e"
    and "now - Updated e > ttl s"
    and "State c \<noteq> ''exited''"
    and "t - now \<le> ttl s"
    and "range_order (Update s now c) ks"
  shows "Get s now (ID c) = (ContainerData_zero, False) \<and>
         containers (Update s now c) (ID c) = Some (c\<lparr>Stats := Stats e, Updated := now\<rparr>) \<and>
         Get (Update s now c) t (ID c) = (c\<lparr>Stats := Stats e, Updated := now\<rparr>, True) \<and>
         c\<lparr>Stats := Stats e, Updated := now\<rparr> \<in> set (List (Update s now c) t ks)"
proof -
  from assms(5) have "ID c \<in> set ks"
    by (auto simp: range_order_def Update_lookup dom_def)
  with assms(1-4) show ?thesis
    by (auto simp: Update_lookup Get_def set_List)
qed

theorem stale_entry_resurrected_witness:
  "containers (example_store ''running'' 1) ''abc'' = Some (example_entry ''running'' 1) \<and>
   100 - Updated (example_entry ''running'' 1) > ttl (example_store ''running'' 1) \<and>
   State (fromContainer example_running) \<noteq> ''exited'' \<and>
   (120::int) - 100 \<le> ttl (example_store ''running'' 1) \<and>
   range_order (Update (example_store ''running'' 1) 100 (fromContainer example_running)) [''abc''] \<and>
   Stats (fromContainer example_running) = None \<and>
   Get (example_store ''running'' 1) 100 ''abc'' = (ContainerData_zero, False) \<and>
   Get (Update (example_store ''running'' 1) 100 (fromContainer example_running)) 120 ''abc''
     = ((fromContainer example_running)\<lparr>Stats := Some example_stats, Updated := 100\<rparr>, True) \<and>
   List (Update (example_store ''running'' 1) 100 (fromContainer example_running)) 120 [''abc'']
     = [(fromContainer example_running)\<lparr>Stats := Some example_stats, Updated := 100\<rparr>]"
proof -
  have id: "ID (fromContainer example_running) = ''abc''"
    by (simp add: fromContainer_def example_defs)
  have h: "containers (example_store ''running'' 1) (ID (fromContainer example_running))
             = Some (example_entry ''running'' 1)"
    "100 - Updated (example_entry ''running'' 1) > ttl (example_store ''running'' 1)"
    "State (fromContainer example_running) \<noteq> ''exited''"
    "(120::int) - 100 \<le> ttl (example_store ''running'' 1)"
    "range_order (Update (example_store ''running'' 1) 100 (fromContainer example_running)) [''abc'']"
    by (auto simp: fromContainer_def example_defs range_order_def Update_lookup dom_def)
  have more: "Stats (fromContainer example_running) = None"
    "Stats (example_entry ''running'' 1) = Some example_stats"
    by (simp_all add: fromContainer_def example_defs)
  have lst: "List (Update (example_store ''running'' 1) 100 (fromContainer example_running)) 120
               [''abc'']
     = [(fromContainer example_running)\<lparr>Stats := Some example_stats, Updated := 100\<rparr>]"
    by (simp add: List_def Update_lookup id) (simp add: example_defs fromContainer_def)
  from stale_entry_resurrected [OF h] h more lst show ?thesis
    by (simp add: id)
qed

section \<open>The store: updateStats\<close>

lemma UpdateStats_absent:
  "containers s cid = None \<Longrightarrow> UpdateStats s now cid stats = (False, s)"
  by (simp add: UpdateStats_def)

lemma UpdateStats_present:
  "containers s cid = Some c \<Longrightarrow>
     UpdateStats s now cid stats =
       (True, s\<lparr>containers := (containers s)(cid \<mapsto> c\<lparr>Stats := stats, Updated := now\<rparr>)\<rparr>)"
  by (simp add: UpdateStats_def)

text \<open>
  Claim C9. \<open>UpdateStats\<close> is total. When the map has no entry for \<open>cid\<close> it returns
  false and the store is the one it was given. When the map has an entry it returns
  true, the entry's stats are the given stats, its \<open>Updated\<close> is the clock reading, its
  other fields are the ones it had, and every other key keeps its entry.
\<close>

theorem UpdateStats_total:
  "(containers s cid = None \<longrightarrow> UpdateStats s now cid stats = (False, s)) \<and>
   (\<forall>c. containers s cid = Some c \<longrightarrow>
      fst (UpdateStats s now cid stats) = True \<and>
      containers (snd (UpdateStats s now cid stats)) cid
        = Some (c\<lparr>Stats := stats, Updated := now\<rparr>) \<and>
      (\<forall>k. k \<noteq> cid \<longrightarrow>
         containers (snd (UpdateStats s now cid stats)) k = containers s k) \<and>
      ttl (snd (UpdateStats s now cid stats)) = ttl s)"
  by (simp add: UpdateStats_def)

theorem UpdateStats_total_witness:
  "containers (NewStore 60) ''b'' = None \<and>
   UpdateStats (NewStore 60) 5 ''b'' (Some Stats_zero) = (False, NewStore 60) \<and>
   containers (Update (NewStore 60) 1 (ContainerData_zero\<lparr>ID := ''a''\<rparr>)) ''a''
     = Some (ContainerData_zero\<lparr>ID := ''a'', Updated := 1\<rparr>) \<and>
   fst (UpdateStats (Update (NewStore 60) 1 (ContainerData_zero\<lparr>ID := ''a''\<rparr>)) 5 ''a''
          (Some Stats_zero)) = True \<and>
   containers (snd (UpdateStats (Update (NewStore 60) 1 (ContainerData_zero\<lparr>ID := ''a''\<rparr>))
                      5 ''a'' (Some Stats_zero))) ''a''
     = Some (ContainerData_zero\<lparr>ID := ''a'', Stats := Some Stats_zero, Updated := 5\<rparr>)"
proof -
  have absent: "containers (NewStore 60) ''b'' = None"
    by (simp add: NewStore_def)
  have present: "containers (Update (NewStore 60) 1 (ContainerData_zero\<lparr>ID := ''a''\<rparr>)) ''a''
     = Some (ContainerData_zero\<lparr>ID := ''a'', Updated := 1\<rparr>)"
    by (simp add: NewStore_def Update_def ContainerData_zero_def)
  from absent UpdateStats_total [of "NewStore 60" "''b''" 5 "Some Stats_zero"]
  have "UpdateStats (NewStore 60) 5 ''b'' (Some Stats_zero) = (False, NewStore 60)"
    by simp
  moreover
  from present UpdateStats_total
    [of "Update (NewStore 60) 1 (ContainerData_zero\<lparr>ID := ''a''\<rparr>)" "''a''" 5 "Some Stats_zero"]
  have "fst (UpdateStats (Update (NewStore 60) 1 (ContainerData_zero\<lparr>ID := ''a''\<rparr>)) 5 ''a''
          (Some Stats_zero)) = True \<and>
   containers (snd (UpdateStats (Update (NewStore 60) 1 (ContainerData_zero\<lparr>ID := ''a''\<rparr>))
                      5 ''a'' (Some Stats_zero))) ''a''
     = Some (ContainerData_zero\<lparr>ID := ''a'', Stats := Some Stats_zero, Updated := 5\<rparr>)"
    by simp
  ultimately show ?thesis using absent present by simp
qed


section \<open>A failed listing\<close>

text \<open>
  Claim C4. When \<open>ListContainers\<close> fails, \<open>Sync\<close> returns the error of the listing
  and the store it was given: no entry is created, rewritten or deleted. This holds of
  both revisions, and \<open>SyncContainers\<close> passes the error on.
\<close>

theorem Sync_abort:
  "Sync (Inl err) getStats cpuPercent s now ks = (Some err, s) \<and>
   SyncContainers (Inl err) s now ks = (Inl err, s) \<and>
   Sync_sequential (Inl err) getStats cpuPercent s now ks = (Some err, s)"
  by (simp add: Sync_def SyncContainers_def Sync_sequential_def)

section \<open>One key through a pass\<close>

text \<open>
  Each step of a pass reads and writes one key: the first loop the ID of the stored
  entry, the second loop and the stats the ID of the listed container. What a pass does
  to the entry of a key is therefore what its steps for that key do.
\<close>

lemma containerMap_snoc: "containerMap (cs @ [c]) = (containerMap cs)(Container.ID c \<mapsto> c)"
  by (simp add: containerMap_def)

lemma containerMap_ID: "containerMap cs k = Some d \<Longrightarrow> Container.ID d = k \<and> d \<in> set cs"
  by (induction cs arbitrary: d rule: rev_induct)
     (auto simp: containerMap_snoc split: if_splits, simp add: containerMap_def)

lemma containerMap_None: "containerMap cs k = None \<longleftrightarrow> k \<notin> Container.ID ` set cs"
  by (induction cs rule: rev_induct)
     (auto simp: containerMap_snoc containerMap_def)

lemma containerMap_distinct:
  "distinct (map Container.ID cs) \<Longrightarrow> d \<in> set cs \<Longrightarrow> containerMap cs (Container.ID d) = Some d"
proof (induction cs rule: rev_induct)
  case Nil
  then show ?case by simp
next
  case (snoc x xs)
  show ?case
  proof (cases "d = x")
    case True
    then show ?thesis by (simp add: containerMap_snoc)
  next
    case False
    with snoc.prems have "d \<in> set xs" by simp
    moreover from this snoc.prems have "Container.ID d \<noteq> Container.ID x"
      by (auto simp: image_iff)
    ultimately show ?thesis using snoc by (simp add: containerMap_snoc)
  qed
qed

lemma agree_refl: "agree k s s" by (simp add: agree_def)
lemma agree_sym: "agree k s s' \<Longrightarrow> agree k s' s" by (simp add: agree_def)
lemma agree_trans: "agree k s s' \<Longrightarrow> agree k s' s'' \<Longrightarrow> agree k s s''" by (simp add: agree_def)

lemma Update_agree: "agree k s s' \<Longrightarrow> agree k (Update s now c) (Update s' now c)"
  by (auto simp: agree_def Update_lookup Update_ttl)

lemma Update_other: "ID c \<noteq> k \<Longrightarrow> agree k (Update s now c) s"
  by (simp add: agree_def Update_lookup Update_ttl)

lemma resolveTransition_other:
  assumes "\<And>j d. cm j = Some d \<Longrightarrow> Container.ID d = j" and "ID x \<noteq> k"
  shows "agree k (resolveTransition cm now s x) s"
  using assms
  by (auto simp: resolveTransition_def agree_refl fromContainer_def intro!: Update_other
       split: option.splits)

lemma resolveTransition_agree:
  "agree k s s' \<Longrightarrow> agree k (resolveTransition cm now s x) (resolveTransition cm now s' x)"
  by (auto simp: resolveTransition_def intro: Update_agree split: option.splits)

lemma Get_agree: "agree k s s' \<Longrightarrow> Get s now k = Get s' now k"
  by (auto simp: agree_def Get_def split: option.splits)

lemma mergeContainer_other: "Container.ID c \<noteq> k \<Longrightarrow> agree k (mergeContainer now s c) s"
  by (auto simp: mergeContainer_def agree_refl fromContainer_def intro!: Update_other
       split: prod.splits)

lemma mergeContainer_agree:
  assumes "agree k s s'"
  shows "agree k (mergeContainer now s c) (mergeContainer now s' c)"
proof (cases "Container.ID c = k")
  case True
  with assms show ?thesis
    by (auto simp: mergeContainer_def Get_agree [OF assms] intro: Update_agree split: prod.splits)
next
  case False
  from mergeContainer_other [OF False] assms mergeContainer_other [OF False, THEN agree_sym]
  show ?thesis by (blast intro: agree_trans)
qed

lemma UpdateStats_agree:
  "agree k s s' \<Longrightarrow> agree k (snd (UpdateStats s now k stats)) (snd (UpdateStats s' now k stats))"
  by (auto simp: agree_def UpdateStats_def split: option.splits)

lemma UpdateStats_other: "j \<noteq> k \<Longrightarrow> agree k (snd (UpdateStats s now j stats)) s"
  by (auto simp: agree_def UpdateStats_def split: option.splits)

lemma syncStatsOne_other:
  "Container.ID c \<noteq> k \<Longrightarrow> agree k (syncStatsOne getStats cpuPercent now s c) s"
  by (auto simp: syncStatsOne_def agree_refl intro: UpdateStats_other split: sum.splits)

lemma syncStatsOne_agree:
  assumes "agree k s s'"
  shows "agree k (syncStatsOne getStats cpuPercent now s c) (syncStatsOne getStats cpuPercent now s' c)"
proof (cases "Container.ID c = k")
  case True
  with assms show ?thesis
    by (auto simp: syncStatsOne_def intro: UpdateStats_agree split: sum.splits)
next
  case False
  from syncStatsOne_other [OF False] assms syncStatsOne_other [OF False, THEN agree_sym]
  show ?thesis by (blast intro: agree_trans)
qed

lemma RemoveStaleData_agree:
  "agree k s s' \<Longrightarrow> agree k (RemoveStaleData s now) (RemoveStaleData s' now)"
  by (auto simp: agree_def RemoveStaleData_def split: option.splits)

lemma foldl_agree_other:
  assumes "\<And>s x. x \<in> set xs \<Longrightarrow> agree k (f s x) s"
  shows "agree k (foldl f s xs) s"
  using assms
proof (induction xs arbitrary: s)
  case Nil
  then show ?case by (simp add: agree_refl)
next
  case (Cons y ys)
  have "agree k (foldl f (f s y) ys) (f s y)" by (rule Cons.IH) (simp add: Cons.prems)
  moreover have "agree k (f s y) s" by (simp add: Cons.prems)
  ultimately show ?case by (auto intro: agree_trans)
qed

lemma foldl_agree_at:
  assumes other: "\<And>s x. key x \<noteq> k \<Longrightarrow> agree k (f s x) s"
    and loc: "\<And>s s' x. agree k s s' \<Longrightarrow> agree k (f s x) (f s' x)"
    and "distinct (map key xs)" and "x \<in> set xs" and "key x = k"
  shows "agree k (foldl f s xs) (f s x)"
  using assms(3-5)
proof (induction xs arbitrary: s)
  case Nil
  then show ?case by simp
next
  case (Cons y ys)
  show ?case
  proof (cases "y = x")
    case True
    have "key z \<noteq> k" if "z \<in> set ys" for z
    proof
      assume "key z = k"
      with that have "k \<in> key ` set ys" by (auto simp: image_iff)
      with Cons.prems True show False by simp
    qed
    then have "agree k (foldl f (f s x) ys) (f s x)"
      by (intro foldl_agree_other other)
    with True show ?thesis by simp
  next
    case False
    with Cons.prems have in_ys: "x \<in> set ys" and ky: "key y \<noteq> k" and d: "distinct (map key ys)"
      by auto
    have "agree k (foldl f (f s y) ys) (f (f s y) x)"
      using Cons.IH [OF d in_ys Cons.prems(3)] .
    moreover have "agree k (f (f s y) x) (f s x)"
      by (rule loc) (rule other [OF ky])
    ultimately show ?thesis by (auto intro: agree_trans)
  qed
qed

lemma map_ID_List:
  "wf_store s \<Longrightarrow>
     map ID (List s now ks)
       = filter (\<lambda>k. \<exists>e. containers s k = Some e \<and> now - Updated e \<le> ttl s) ks"
  by (induction ks) (auto simp: List_def wf_store_def split: option.splits)

lemma distinct_map_ID_List: "wf_store s \<Longrightarrow> distinct ks \<Longrightarrow> distinct (map ID (List s now ks))"
  by (simp add: map_ID_List)

lemma containerMap_key: "containerMap cs j = Some d \<Longrightarrow> Container.ID d = j"
  using containerMap_ID by blast

lemma resolve_phase:
  assumes "wf_store s" and "range_order s ks"
    and "containers s cid = Some e" and "now - Updated e \<le> ttl s"
  shows "agree cid (foldl (resolveTransition (containerMap listed) now) s (List s now ks))
           (resolveTransition (containerMap listed) now s e)"
proof (rule foldl_agree_at [where key = ID])
  show "distinct (map ID (List s now ks))"
    using assms by (simp add: distinct_map_ID_List range_order_def)
  show "e \<in> set (List s now ks)"
    using assms by (auto simp: set_List range_order_def)
  show "ID e = cid" using assms by (simp add: wf_store_def)
qed (simp_all add: resolveTransition_other containerMap_key resolveTransition_agree)

lemma merge_phase_listed:
  assumes "distinct (map Container.ID listed)" and "d \<in> set listed" and "Container.ID d = cid"
  shows "agree cid (foldl (mergeContainer now) s listed) (mergeContainer now s d)"
  by (rule foldl_agree_at [where key = Container.ID])
     (simp_all add: assms mergeContainer_other mergeContainer_agree)

lemma merge_phase_unlisted:
  assumes "cid \<notin> Container.ID ` set listed"
  shows "agree cid (foldl (mergeContainer now) s listed) s"
  using assms by (intro foldl_agree_other mergeContainer_other) auto

lemma stats_phase_listed:
  assumes "distinct (map Container.ID listed)" and "d \<in> set listed" and "Container.ID d = cid"
  shows "agree cid (SyncStats getStats cpuPercent s now listed)
           (syncStatsOne getStats cpuPercent now s d)"
  unfolding SyncStats_def
  by (rule foldl_agree_at [where key = Container.ID])
     (simp_all add: assms syncStatsOne_other syncStatsOne_agree)

lemma stats_phase_unlisted:
  assumes "cid \<notin> Container.ID ` set listed"
  shows "agree cid (SyncStats getStats cpuPercent s now listed) s"
  unfolding SyncStats_def
  using assms by (intro foldl_agree_other syncStatsOne_other) auto

lemma Sync_Inr:
  "snd (Sync (Inr listed) getStats cpuPercent s now ks) =
     RemoveStaleData
       (SyncStats getStats cpuPercent
          (foldl (mergeContainer now)
             (foldl (resolveTransition (containerMap listed) now) s (List s now ks)) listed)
          now listed) now"
  by (simp add: Sync_def SyncContainers_def Let_def)

lemma Sync_listed:
  assumes "wf_store s" and "range_order s ks" and "distinct (map Container.ID listed)"
    and "containers s cid = Some e" and "now - Updated e \<le> ttl s"
    and "d \<in> set listed" and "Container.ID d = cid"
  shows "agree cid (snd (Sync (Inr listed) getStats cpuPercent s now ks))
           (RemoveStaleData
              (syncStatsOne getStats cpuPercent now
                 (mergeContainer now (resolveTransition (containerMap listed) now s e) d) d) now)"
proof -
  let ?s1 = "foldl (resolveTransition (containerMap listed) now) s (List s now ks)"
  let ?s2 = "foldl (mergeContainer now) ?s1 listed"
  let ?r1 = "resolveTransition (containerMap listed) now s e"
  have 1: "agree cid ?s1 ?r1"
    using assms(1,2,4,5) by (rule resolve_phase)
  have "agree cid ?s2 (mergeContainer now ?s1 d)"
    using assms(3,6,7) by (rule merge_phase_listed)
  with 1 have 2: "agree cid ?s2 (mergeContainer now ?r1 d)"
    by (blast intro: agree_trans mergeContainer_agree)
  have "agree cid (SyncStats getStats cpuPercent ?s2 now listed)
          (syncStatsOne getStats cpuPercent now ?s2 d)"
    using assms(3,6,7) by (rule stats_phase_listed)
  with 2 have "agree cid (SyncStats getStats cpuPercent ?s2 now listed)
          (syncStatsOne getStats cpuPercent now (mergeContainer now ?r1 d) d)"
    by (blast intro: agree_trans syncStatsOne_agree)
  then show ?thesis
    unfolding Sync_Inr by (rule RemoveStaleData_agree)
qed

lemma Sync_unlisted:
  assumes "wf_store s" and "range_order s ks"
    and "containers s cid = Some e" and "now - Updated e \<le> ttl s"
    and "cid \<notin> Container.ID ` set listed"
  shows "agree cid (snd (Sync (Inr listed) getStats cpuPercent s now ks))
           (RemoveStaleData (resolveTransition (containerMap listed) now s e) now)"
proof -
  let ?s1 = "foldl (resolveTransition (containerMap listed) now) s (List s now ks)"
  let ?s2 = "foldl (mergeContainer now) ?s1 listed"
  let ?r1 = "resolveTransition (containerMap listed) now s e"
  have 1: "agree cid ?s1 ?r1"
    using assms(1-4) by (rule resolve_phase)
  have "agree cid ?s2 ?s1"
    using assms(5) by (rule merge_phase_unlisted)
  with 1 have 2: "agree cid ?s2 ?r1"
    by (blast intro: agree_trans)
  have "agree cid (SyncStats getStats cpuPercent ?s2 now listed) ?s2"
    using assms(5) by (rule stats_phase_unlisted)
  with 2 have "agree cid (SyncStats getStats cpuPercent ?s2 now listed) ?r1"
    by (blast intro: agree_trans)
  then show ?thesis
    unfolding Sync_Inr by (rule RemoveStaleData_agree)
qed

lemma agree_lookup: "agree k s s' \<Longrightarrow> containers s k = containers s' k"
  by (simp add: agree_def)

lemma completed_step:
  assumes "containers s cid = Some e" and "Container.ID d = cid"
    and "0 \<le> ttl s"
    and "Container.State d \<noteq> StateStarting" and "Container.State d \<noteq> StateStopping"
  shows "\<exists>e'. containers (RemoveStaleData
              (syncStatsOne getStats cpuPercent now
                 (mergeContainer now (Update s now (fromContainer d)) d) d) now) cid = Some e'
            \<and> matches_listing e' d"
  using assms
  by (auto simp: mergeContainer_def syncStatsOne_def Get_def Update_lookup UpdateStats_def
        RemoveStaleData_lookup fromContainer_def matches_listing_def
      split: sum.splits option.splits prod.splits)

lemma untouched_step:
  assumes "containers s cid = Some e" and "Container.ID d = cid"
    and "now - Updated e \<le> ttl s"
    and "State e = StateStarting \<or> State e = StateStopping"
  shows "containers (RemoveStaleData
              (syncStatsOne getStats cpuPercent now (mergeContainer now s d) d) now) cid
         = (if Container.State d = ''running'' \<and> 0 \<le> ttl s
            then (case getStats cid of
                    Inl err \<Rightarrow> Some e
                  | Inr sample \<Rightarrow> Some (e\<lparr>Stats := Some (storeStats cpuPercent sample), Updated := now\<rparr>))
            else if Container.State d = ''running'' then (case getStats cid of Inl err \<Rightarrow> Some e | Inr sample \<Rightarrow> None) else Some e)"
  using assms
  by (auto simp: mergeContainer_def syncStatsOne_def Get_def Update_lookup UpdateStats_def
        RemoveStaleData_lookup
      split: sum.splits option.splits prod.splits)

lemma resolveTransition_completes:
  assumes "in_transition e fin" and "cm (ID e) = Some d" and "Container.State d = fin"
  shows "resolveTransition cm now s e = Update s now (fromContainer d)"
  using assms
  by (auto simp: resolveTransition_def in_transition_def StateStarting_def StateStopping_def)

lemma resolveTransition_waits:
  assumes "in_transition e fin" and "cm (ID e) = Some d \<and> Container.State d \<noteq> fin \<or> cm (ID e) = None"
  shows "resolveTransition cm now s e = s"
  using assms
  by (auto simp: resolveTransition_def in_transition_def StateStarting_def StateStopping_def)

section \<open>Sticky transitions\<close>

text \<open>The pass of \<open>Sync\<close> at the key of an entry in transition.\<close>

lemma Sync_sticky:
  assumes wf: "wf_store s" and ro: "range_order s ks"
    and dl: "distinct (map Container.ID listed)"
    and e: "containers s cid = Some e"
    and vis: "now - Updated e \<le> ttl s" and past: "Updated e \<le> now"
    and tr: "in_transition e fin"
  shows "(\<forall>d \<in> set listed. Container.ID d = cid \<and> Container.State d = fin \<longrightarrow>
            (\<exists>e'. containers (snd (Sync (Inr listed) getStats cpuPercent s now ks)) cid = Some e'
                  \<and> matches_listing e' d)) \<and>
         (\<forall>d \<in> set listed. Container.ID d = cid \<and> Container.State d \<noteq> fin
              \<and> Container.State d \<noteq> ''running'' \<longrightarrow>
            containers (snd (Sync (Inr listed) getStats cpuPercent s now ks)) cid = Some e) \<and>
         (\<forall>d \<in> set listed. Container.ID d = cid \<and> Container.State d \<noteq> fin
              \<and> Container.State d = ''running'' \<longrightarrow>
            containers (snd (Sync (Inr listed) getStats cpuPercent s now ks)) cid
              = (case getStats cid of
                   Inl err \<Rightarrow> Some e
                 | Inr sample \<Rightarrow>
                     Some (e\<lparr>Stats := Some (storeStats cpuPercent sample), Updated := now\<rparr>))) \<and>
         (cid \<notin> Container.ID ` set listed \<longrightarrow>
            containers (snd (Sync (Inr listed) getStats cpuPercent s now ks)) cid = Some e) \<and>
         containers (foldl (mergeContainer now) s listed) cid = Some e"
proof -
  let ?s' = "snd (Sync (Inr listed) getStats cpuPercent s now ks)"
  let ?cm = "containerMap listed"
  have ide: "ID e = cid" using wf e by (simp add: wf_store_def)
  have ttl0: "0 \<le> ttl s" using vis past by simp
  have st: "State e = StateStarting \<or> State e = StateStopping"
    using tr by (auto simp: in_transition_def)
  have fin: "fin \<noteq> StateStarting" "fin \<noteq> StateStopping"
    using tr by (auto simp: in_transition_def StateStarting_def StateStopping_def)
  have listed: "containers ?s' cid =
      containers (RemoveStaleData (syncStatsOne getStats cpuPercent now
                   (mergeContainer now (resolveTransition ?cm now s e) d) d) now) cid"
    if "d \<in> set listed" "Container.ID d = cid" for d
    using Sync_listed [OF wf ro dl e vis that] by (rule agree_lookup)
  have cm: "?cm (ID e) = Some d" if "d \<in> set listed" "Container.ID d = cid" for d
    using containerMap_distinct [OF dl that(1)] that(2) ide by simp
  have 1: "\<exists>e'. containers ?s' cid = Some e' \<and> matches_listing e' d"
    if "d \<in> set listed" "Container.ID d = cid" "Container.State d = fin" for d
  proof -
    have "resolveTransition ?cm now s e = Update s now (fromContainer d)"
      using tr cm [OF that(1,2)] that(3) by (rule resolveTransition_completes)
    then show ?thesis
      unfolding listed [OF that(1,2)]
      using completed_step [OF e that(2) ttl0, where now = now and getStats = getStats
          and cpuPercent = cpuPercent] fin that(3) by simp
  qed
  have waits: "containers ?s' cid =
      (if Container.State d = ''running''
       then (case getStats cid of
               Inl err \<Rightarrow> Some e
             | Inr sample \<Rightarrow> Some (e\<lparr>Stats := Some (storeStats cpuPercent sample), Updated := now\<rparr>))
       else Some e)"
    if "d \<in> set listed" "Container.ID d = cid" "Container.State d \<noteq> fin" for d
  proof -
    have "resolveTransition ?cm now s e = s"
      using tr cm [OF that(1,2)] that(3) by (intro resolveTransition_waits) simp_all
    then show ?thesis
      unfolding listed [OF that(1,2)]
      using untouched_step [OF e that(2) vis st, where getStats = getStats
          and cpuPercent = cpuPercent] ttl0 by simp
  qed
  have 4: "containers ?s' cid = Some e" if "cid \<notin> Container.ID ` set listed"
  proof -
    have "?cm (ID e) = None" using that ide by (simp add: containerMap_None)
    then have "resolveTransition ?cm now s e = s"
      using tr by (intro resolveTransition_waits) simp_all
    with Sync_unlisted [OF wf ro e vis that, where getStats = getStats
          and cpuPercent = cpuPercent, THEN agree_lookup]
    show ?thesis using e vis by (simp add: RemoveStaleData_lookup)
  qed
  have skip: "mergeContainer now s d = s" if "Container.ID d = cid" for d
    using that e vis st by (auto simp: mergeContainer_def Get_def)
  have 5: "containers (foldl (mergeContainer now) s listed) cid = Some e"
  proof (cases "cid \<in> Container.ID ` set listed")
    case True
    then obtain d where d: "d \<in> set listed" "Container.ID d = cid" by auto
    from merge_phase_listed [OF dl d, where now = now and s = s, THEN agree_lookup] skip [OF d(2)] e
    show ?thesis by simp
  next
    case False
    from merge_phase_unlisted [OF False, where now = now and s = s, THEN agree_lookup] e
    show ?thesis by simp
  qed
  have 2: "containers ?s' cid = Some e"
    if "d \<in> set listed" "Container.ID d = cid \<and> Container.State d \<noteq> fin
         \<and> Container.State d \<noteq> ''running''" for d
    using waits [OF that(1)] that(2) by simp
  have 3: "containers ?s' cid =
      (case getStats cid of
         Inl err \<Rightarrow> Some e
       | Inr sample \<Rightarrow> Some (e\<lparr>Stats := Some (storeStats cpuPercent sample), Updated := now\<rparr>))"
    if "d \<in> set listed" "Container.ID d = cid \<and> Container.State d \<noteq> fin
         \<and> Container.State d = ''running''" for d
    using waits [OF that(1)] that(2) by auto
  show ?thesis
  proof (intro conjI ballI impI)
    fix d assume "d \<in> set listed" "Container.ID d = cid \<and> Container.State d = fin"
    then show "\<exists>e'. containers ?s' cid = Some e' \<and> matches_listing e' d"
      using 1 by simp
  qed (fact 2 3 4 5)+
qed

text \<open>The pass of \<open>Sync_sequential\<close> at the key of an entry in transition.\<close>

lemma mergeContainerStats_other:
  "Container.ID c \<noteq> k \<Longrightarrow> agree k (mergeContainerStats getStats cpuPercent now s c) s"
  by (auto simp: mergeContainerStats_def agree_def Update_lookup UpdateStats_def fromContainer_def
        Let_def split: prod.splits sum.splits option.splits)

lemma mergeContainerStats_agree:
  assumes "agree k s s'"
  shows "agree k (mergeContainerStats getStats cpuPercent now s c)
           (mergeContainerStats getStats cpuPercent now s' c)"
proof (cases "Container.ID c = k")
  case True
  with assms show ?thesis
    by (auto simp: mergeContainerStats_def Get_agree [OF assms] Let_def
          intro!: Update_agree UpdateStats_agree split: prod.splits sum.splits)
next
  case False
  from mergeContainerStats_other [OF False] assms
    mergeContainerStats_other [OF False, THEN agree_sym]
  show ?thesis by (blast intro: agree_trans)
qed

lemma Sync_sequential_Inr:
  "snd (Sync_sequential (Inr listed) getStats cpuPercent s now ks) =
     RemoveStaleData
       (foldl (mergeContainerStats getStats cpuPercent now)
          (foldl (resolveTransition (containerMap listed) now) s (List s now ks)) listed) now"
  by (simp add: Sync_sequential_def Let_def)

lemma Sync_sequential_listed:
  assumes "wf_store s" and "range_order s ks" and "distinct (map Container.ID listed)"
    and "containers s cid = Some e" and "now - Updated e \<le> ttl s"
    and "d \<in> set listed" and "Container.ID d = cid"
  shows "agree cid (snd (Sync_sequential (Inr listed) getStats cpuPercent s now ks))
           (RemoveStaleData
              (mergeContainerStats getStats cpuPercent now
                 (resolveTransition (containerMap listed) now s e) d) now)"
proof -
  let ?s1 = "foldl (resolveTransition (containerMap listed) now) s (List s now ks)"
  let ?r1 = "resolveTransition (containerMap listed) now s e"
  let ?m = "mergeContainerStats getStats cpuPercent now"
  have 1: "agree cid ?s1 ?r1"
    using assms(1,2,4,5) by (rule resolve_phase)
  have "agree cid (foldl ?m ?s1 listed) (?m ?s1 d)"
    by (rule foldl_agree_at [where key = Container.ID])
       (simp_all add: assms mergeContainerStats_other mergeContainerStats_agree)
  with 1 have "agree cid (foldl ?m ?s1 listed) (?m ?r1 d)"
    by (blast intro: agree_trans mergeContainerStats_agree)
  then show ?thesis
    unfolding Sync_sequential_Inr by (rule RemoveStaleData_agree)
qed

lemma Sync_sequential_unlisted:
  assumes "wf_store s" and "range_order s ks"
    and "containers s cid = Some e" and "now - Updated e \<le> ttl s"
    and "cid \<notin> Container.ID ` set listed"
  shows "agree cid (snd (Sync_sequential (Inr listed) getStats cpuPercent s now ks))
           (RemoveStaleData (resolveTransition (containerMap listed) now s e) now)"
proof -
  let ?s1 = "foldl (resolveTransition (containerMap listed) now) s (List s now ks)"
  let ?r1 = "resolveTransition (containerMap listed) now s e"
  let ?m = "mergeContainerStats getStats cpuPercent now"
  have 1: "agree cid ?s1 ?r1"
    using assms(1-4) by (rule resolve_phase)
  have "agree cid (foldl ?m ?s1 listed) ?s1"
    using assms(5) by (intro foldl_agree_other mergeContainerStats_other) auto
  with 1 have "agree cid (foldl ?m ?s1 listed) ?r1"
    by (blast intro: agree_trans)
  then show ?thesis
    unfolding Sync_sequential_Inr by (rule RemoveStaleData_agree)
qed

lemma completed_step_sequential:
  assumes "containers s cid = Some e" and "Container.ID d = cid"
    and "0 \<le> ttl s"
    and "Container.State d \<noteq> StateStarting" and "Container.State d \<noteq> StateStopping"
  shows "\<exists>e'. containers (RemoveStaleData
              (mergeContainerStats getStats cpuPercent now
                 (Update s now (fromContainer d)) d) now) cid = Some e'
            \<and> matches_listing e' d"
  using assms
  by (auto simp: mergeContainerStats_def Get_def Update_lookup UpdateStats_def Let_def
        RemoveStaleData_lookup fromContainer_def matches_listing_def
      split: sum.splits option.splits prod.splits)

lemma untouched_step_sequential:
  assumes "containers s cid = Some e" and "Container.ID d = cid"
    and "now - Updated e \<le> ttl s"
    and "State e = StateStarting \<or> State e = StateStopping"
  shows "containers (RemoveStaleData (mergeContainerStats getStats cpuPercent now s d) now) cid
           = Some e"
  using assms
  by (auto simp: mergeContainerStats_def Get_def RemoveStaleData_lookup)

lemma Sync_sequential_sticky:
  assumes wf: "wf_store s" and ro: "range_order s ks"
    and dl: "distinct (map Container.ID listed)"
    and e: "containers s cid = Some e"
    and vis: "now - Updated e \<le> ttl s" and past: "Updated e \<le> now"
    and tr: "in_transition e fin"
  shows "(\<forall>d \<in> set listed. Container.ID d = cid \<and> Container.State d = fin \<longrightarrow>
            (\<exists>e'. containers (snd (Sync_sequential (Inr listed) getStats cpuPercent s now ks)) cid
                     = Some e' \<and> matches_listing e' d)) \<and>
         (\<forall>d \<in> set listed. Container.ID d = cid \<and> Container.State d \<noteq> fin \<longrightarrow>
            containers (snd (Sync_sequential (Inr listed) getStats cpuPercent s now ks)) cid
              = Some e) \<and>
         (cid \<notin> Container.ID ` set listed \<longrightarrow>
            containers (snd (Sync_sequential (Inr listed) getStats cpuPercent s now ks)) cid
              = Some e)"
proof -
  let ?s' = "snd (Sync_sequential (Inr listed) getStats cpuPercent s now ks)"
  let ?cm = "containerMap listed"
  have ide: "ID e = cid" using wf e by (simp add: wf_store_def)
  have ttl0: "0 \<le> ttl s" using vis past by simp
  have st: "State e = StateStarting \<or> State e = StateStopping"
    using tr by (auto simp: in_transition_def)
  have fin: "fin \<noteq> StateStarting" "fin \<noteq> StateStopping"
    using tr by (auto simp: in_transition_def StateStarting_def StateStopping_def)
  have listed: "containers ?s' cid =
      containers (RemoveStaleData (mergeContainerStats getStats cpuPercent now
                   (resolveTransition ?cm now s e) d) now) cid"
    if "d \<in> set listed" "Container.ID d = cid" for d
    using Sync_sequential_listed [OF wf ro dl e vis that] by (rule agree_lookup)
  have cm: "?cm (ID e) = Some d" if "d \<in> set listed" "Container.ID d = cid" for d
    using containerMap_distinct [OF dl that(1)] that(2) ide by simp
  have 1: "\<exists>e'. containers ?s' cid = Some e' \<and> matches_listing e' d"
    if "d \<in> set listed" "Container.ID d = cid \<and> Container.State d = fin" for d
  proof -
    from that have id: "Container.ID d = cid" and sd: "Container.State d = fin" by simp_all
    have "resolveTransition ?cm now s e = Update s now (fromContainer d)"
      using tr cm [OF that(1) id] sd by (rule resolveTransition_completes)
    then show ?thesis
      unfolding listed [OF that(1) id]
      using completed_step_sequential [OF e id ttl0, where now = now and getStats = getStats
          and cpuPercent = cpuPercent] fin sd by simp
  qed
  have 2: "containers ?s' cid = Some e"
    if "d \<in> set listed" "Container.ID d = cid \<and> Container.State d \<noteq> fin" for d
  proof -
    from that have id: "Container.ID d = cid" and sd: "Container.State d \<noteq> fin" by simp_all
    have "resolveTransition ?cm now s e = s"
      using tr cm [OF that(1) id] sd by (intro resolveTransition_waits) simp_all
    then show ?thesis
      unfolding listed [OF that(1) id]
      using untouched_step_sequential [OF e id vis st, where getStats = getStats
          and cpuPercent = cpuPercent] by simp
  qed
  have 3: "containers ?s' cid = Some e" if "cid \<notin> Container.ID ` set listed"
  proof -
    have "?cm (ID e) = None" using that ide by (simp add: containerMap_None)
    then have "resolveTransition ?cm now s e = s"
      using tr by (intro resolveTransition_waits) simp_all
    with Sync_sequential_unlisted [OF wf ro e vis that, where getStats = getStats
          and cpuPercent = cpuPercent, THEN agree_lookup]
    show ?thesis using e vis by (simp add: RemoveStaleData_lookup)
  qed
  show ?thesis
    by (intro conjI ballI impI) (fact 1 2 3)+
qed




text \<open>
  In a pass of \<open>Sync\<close>, a visible \<open>stopping\<close> entry of a container that the listing
  reports as \<open>running\<close> keeps its state, and the stats phase replaces its stats and its
  stamp.
\<close>

lemma stopping_entry_enriched:
  "containers (example_store ''stopping'' 90) ''abc'' = Some (example_entry ''stopping'' 90) \<and>
   containers (snd (Sync (Inr [example_running]) example_getStats example_cpuPercent
                      (example_store ''stopping'' 90) 100 [''abc''])) ''abc''
     = Some \<lparr>ID = ''abc'', Names = [''web''], Image = ''nginx'', State = ''stopping'',
             Status = ''Up 2 hours'', Created = 1700000000,
             Stats = Some \<lparr>Memory_Usage = 104857600, Memory_Limit = 1073741824,
                           CPU_Usage = Float64 0, CPU_Cores = 4, CPU_SystemMS = 1000\<rparr>,
             Updated = 100\<rparr>"
  by (simp add: example_defs Sync_def SyncContainers_def SyncStats_def syncStatsOne_def
        resolveTransition_def mergeContainer_def containerMap_def List_def Get_def Update_def
        UpdateStats_def RemoveStaleData_def fromContainer_def storeStats_def Let_def
        StateStarting_def StateStopping_def float64_zero_def)

section \<open>Start and stop\<close>

text \<open>
  When the snapshot that the call begins with carries the ID (the entry was found in the
  store, or the container in the first listing), a failed command followed by a listing
  that reports the container writes the reported state and status under the ID, and the
  call returns the error of the command.
\<close>

lemma transitionContainer_rollback:
  assumes "ID existing0 = cid" and "find (\<lambda>c. Container.ID c = cid) listed = Some c"
  shows "fst (transitionContainer marker label existing0 (Some err) (Inr listed) s now cid) = Some err \<and>
         (\<exists>e'. containers (snd (transitionContainer marker label existing0 (Some err) (Inr listed) s now cid)) cid = Some e'
            \<and> State e' = Container.State c \<and> Status e' = Container.Status c)"
  using assms by (simp add: transitionContainer_def Let_def Update_lookup)

lemma seedExisting_ID:
  assumes "wf_store s"
    and "snd (Get s now cid) \<or> (\<exists>listed. listing = Inr listed \<and> cid \<in> Container.ID ` set listed)"
  shows "ID (seedExisting listing s now cid) = cid"
proof (cases "snd (Get s now cid)")
  case True
  with assms(1) show ?thesis
    by (auto simp: seedExisting_def Get_def wf_store_def split: option.splits if_splits)
next
  case False
  with assms(2) obtain listed where l: "listing = Inr listed" "cid \<in> Container.ID ` set listed"
    by blast
  then obtain c where "find (\<lambda>c. Container.ID c = cid) listed = Some c" "Container.ID c = cid"
    by (cases "find (\<lambda>c. Container.ID c = cid) listed") (auto simp: find_None_iff find_Some_iff)
  with False l show ?thesis
    by (cases "Get s now cid") (simp add: seedExisting_def)
qed

text \<open>
  Claim C5, at an input where the code does otherwise. The store is empty, the first
  listing fails, the command fails and the second listing reports the container
  \<open>abc\<close> (as \<open>exited\<close> after the start, as \<open>running\<close> after the stop). The
  snapshot is then the zero value that \<open>Get\<close> returned, whose ID is empty: both
  writes go under the empty ID, and the store has no entry for \<open>abc\<close>. The error
  returned is the one of the command.
\<close>

theorem unseeded_rollback_misfiled:
  "fst (StartContainer (Inl (Error ''cannot connect'')) (Some (Error ''start failed''))
          (Inr [example_exited]) (NewStore 60) 5 ''abc'') = Some (Error ''start failed'') \<and>
   containers (snd (StartContainer (Inl (Error ''cannot connect'')) (Some (Error ''start failed''))
          (Inr [example_exited]) (NewStore 60) 5 ''abc'')) ''abc'' = None \<and>
   containers (snd (StartContainer (Inl (Error ''cannot connect'')) (Some (Error ''start failed''))
          (Inr [example_exited]) (NewStore 60) 5 ''abc'')) []
     = Some (ContainerData_zero\<lparr>State := ''exited'', Status := ''Exited (1) 2 seconds ago'',
               Updated := 5\<rparr>) \<and>
   fst (StopContainer (Inl (Error ''cannot connect'')) (Some (Error ''stop failed''))
          (Inr [example_running]) (NewStore 60) 5 ''abc'') = Some (Error ''stop failed'') \<and>
   containers (snd (StopContainer (Inl (Error ''cannot connect'')) (Some (Error ''stop failed''))
          (Inr [example_running]) (NewStore 60) 5 ''abc'')) ''abc'' = None \<and>
   containers (snd (StopContainer (Inl (Error ''cannot connect'')) (Some (Error ''stop failed''))
          (Inr [example_running]) (NewStore 60) 5 ''abc'')) []
     = Some (ContainerData_zero\<lparr>State := ''running'', Status := ''Up 2 hours'', Updated := 5\<rparr>)"
  by (simp add: StartContainer_def StopContainer_def transitionContainer_def seedExisting_def
        Get_def NewStore_def Update_def Let_def example_exited_def example_running_def
        ContainerData_zero_def StateStarting_def StateStopping_def)

section \<open>Stats of a sample without progress\<close>

lemma storeStats_skipped:
  assumes "CPUStats_SystemCPUUsage sample - PreCPUStats_SystemCPUUsage sample = 0 \<or>
           CPUStats_CPUUsage_TotalUsage sample - PreCPUStats_CPUUsage_TotalUsage sample = 0"
  shows "CPU_Usage (storeStats cpuPercent sample) = float64_zero"
  using assms by (auto simp: storeStats_def Let_def)

lemma SyncStats_running:
  assumes "c \<in> set listed" and "Container.State c = ''running''"
    and "getStats (Container.ID c) = Inr sample"
    and "containers s (Container.ID c) = Some e"
  shows "containers (SyncStats getStats cpuPercent s now listed) (Container.ID c)
           = Some (e\<lparr>Stats := Some (storeStats cpuPercent sample), Updated := now\<rparr>)"
proof -
  let ?k = "Container.ID c"
  let ?new = "e\<lparr>Stats := Some (storeStats cpuPercent sample), Updated := now\<rparr>"
  have step_same: "containers (syncStatsOne getStats cpuPercent now t x) ?k = Some ?new"
    if "containers t ?k = Some e \<or> containers t ?k = Some ?new"
      and "Container.ID x = ?k" and "Container.State x = ''running''" for t x
    using that assms(3) by (auto simp: syncStatsOne_def UpdateStats_def)
  have step_keep: "containers (syncStatsOne getStats cpuPercent now t x) ?k = containers t ?k"
    if "Container.ID x \<noteq> ?k \<or> Container.State x \<noteq> ''running''" for t x
    using that by (auto simp: syncStatsOne_def UpdateStats_def split: sum.splits option.splits)
  have settled: "containers (foldl (syncStatsOne getStats cpuPercent now) t xs) ?k = Some ?new"
    if "containers t ?k = Some ?new" for t xs
    using that
  proof (induction xs arbitrary: t)
    case Nil
    then show ?case by simp
  next
    case (Cons x xs)
    have "containers (syncStatsOne getStats cpuPercent now t x) ?k = Some ?new"
    proof (cases "Container.ID x = ?k \<and> Container.State x = ''running''")
      case True
      then show ?thesis using Cons.prems by (simp add: step_same)
    next
      case False
      then show ?thesis using Cons.prems by (simp add: step_keep)
    qed
    then show ?case by (simp add: Cons.IH)
  qed
  have "containers (foldl (syncStatsOne getStats cpuPercent now) t xs) ?k = Some ?new"
    if "containers t ?k = Some e" and "c \<in> set xs" for t xs
    using that
  proof (induction xs arbitrary: t)
    case Nil
    then show ?case by simp
  next
    case (Cons x xs)
    show ?case
    proof (cases "Container.ID x = ?k \<and> Container.State x = ''running''")
      case True
      then have "containers (syncStatsOne getStats cpuPercent now t x) ?k = Some ?new"
        using Cons.prems by (simp add: step_same)
      then show ?thesis by (simp add: settled)
    next
      case False
      then have "x \<noteq> c" using assms(2) by auto
      with Cons.prems have "c \<in> set xs" by simp
      moreover have "containers (syncStatsOne getStats cpuPercent now t x) ?k = Some e"
        using False Cons.prems by (simp add: step_keep)
      ultimately show ?thesis by (simp add: Cons.IH)
    qed
  qed
  with assms show ?thesis by (simp add: SyncStats_def)
qed

text \<open>
  A counter that went down gives a delta that wraps around to a positive value: the
  guard then holds and the percentage is computed from the wrapped deltas.
\<close>

lemma storeStats_computed:
  assumes "CPUStats_SystemCPUUsage sample \<noteq> PreCPUStats_SystemCPUUsage sample"
    and "CPUStats_CPUUsage_TotalUsage sample \<noteq> PreCPUStats_CPUUsage_TotalUsage sample"
  shows "CPU_Usage (storeStats cpuPercent sample) =
           cpuPercent
             (CPUStats_CPUUsage_TotalUsage sample - PreCPUStats_CPUUsage_TotalUsage sample)
             (CPUStats_SystemCPUUsage sample - PreCPUStats_SystemCPUUsage sample)
             (CPUStats_OnlineCPUs sample)"
  using assms by (simp add: storeStats_def Let_def word_gt_0)

text \<open>
  Claim C8, as the code has it. The deltas are unsigned differences, so a delta that is
  not positive is zero. When the sample fetched for a running container of the listing
  has a system delta or a CPU delta of zero and the store has an entry for the
  container, the stats phase stores a fresh stats record for it whose CPU usage is the
  zero value, whatever the usage stored before.
\<close>

theorem SyncStats_skipped_usage:
  assumes "c \<in> set listed" and "Container.State c = ''running''"
    and "getStats (Container.ID c) = Inr sample"
    and "containers s (Container.ID c) = Some e"
    and "CPUStats_SystemCPUUsage sample - PreCPUStats_SystemCPUUsage sample = 0 \<or>
         CPUStats_CPUUsage_TotalUsage sample - PreCPUStats_CPUUsage_TotalUsage sample = 0"
  shows "\<exists>e' st. containers (SyncStats getStats cpuPercent s now listed) (Container.ID c) = Some e'
           \<and> Stats e' = Some st \<and> CPU_Usage st = float64_zero"
  using assms(1-4) storeStats_skipped [OF assms(5), of cpuPercent]
  by (simp add: SyncStats_running)

theorem SyncStats_skipped_usage_witness:
  "example_running \<in> set [example_running] \<and>
   Container.State example_running = ''running'' \<and>
   example_getStats (Container.ID example_running) = Inr example_sample \<and>
   containers (example_store ''running'' 90) (Container.ID example_running)
     = Some (example_entry ''running'' 90) \<and>
   CPUStats_CPUUsage_TotalUsage example_sample - PreCPUStats_CPUUsage_TotalUsage example_sample = 0 \<and>
   (\<exists>e' st. containers (SyncStats example_getStats example_cpuPercent
                          (example_store ''running'' 90) 100 [example_running]) ''abc'' = Some e'
            \<and> Stats e' = Some st \<and> CPU_Usage st = Float64 0)"
proof -
  have h: "example_running \<in> set [example_running]"
    "Container.State example_running = ''running''"
    "example_getStats (Container.ID example_running) = Inr example_sample"
    "containers (example_store ''running'' 90) (Container.ID example_running)
       = Some (example_entry ''running'' 90)"
    by (simp_all add: example_defs)
  have z: "CPUStats_CPUUsage_TotalUsage example_sample
             - PreCPUStats_CPUUsage_TotalUsage example_sample = 0"
    by (simp add: example_sample_def)
  have id: "Container.ID example_running = ''abc''"
    by (simp add: example_defs)
  have zz: "CPUStats_SystemCPUUsage example_sample - PreCPUStats_SystemCPUUsage example_sample = 0 \<or>
            CPUStats_CPUUsage_TotalUsage example_sample
              - PreCPUStats_CPUUsage_TotalUsage example_sample = 0"
    using z by simp
  from SyncStats_skipped_usage [where c = example_running and listed = "[example_running]"
      and getStats = example_getStats and sample = example_sample
      and s = "example_store ''running'' 90" and e = "example_entry ''running'' 90"
      and cpuPercent = example_cpuPercent and now = 100, OF h zz]
  have "\<exists>e' st. containers (SyncStats example_getStats example_cpuPercent
                          (example_store ''running'' 90) 100 [example_running]) ''abc'' = Some e'
            \<and> Stats e' = Some st \<and> CPU_Usage st = Float64 0"
    by (simp add: id float64_zero_def)
  with h z show ?thesis by simp
qed

text \<open>
  Claim C8 as stated fails: the entry has stats with a CPU usage of 25.5, the sample
  fetched for it has a CPU delta of zero, and after the stats phase its CPU usage is 0,
  not 25.5.
\<close>

theorem SyncStats_prior_usage_lost:
  "containers (example_store ''running'' 90) ''abc'' = Some (example_entry ''running'' 90) \<and>
   Stats (example_entry ''running'' 90) = Some example_stats \<and>
   CPU_Usage example_stats = Float64 0x4039800000000000 \<and>
   containers (SyncStats example_getStats example_cpuPercent (example_store ''running'' 90) 100
                 [example_running]) ''abc''
     = Some (example_entry ''running'' 90
         \<lparr>Stats := Some \<lparr>Memory_Usage = 104857600, Memory_Limit = 1073741824,
                           CPU_Usage = Float64 0, CPU_Cores = 4, CPU_SystemMS = 1000\<rparr>,
           Updated := 100\<rparr>)"
  by (simp add: example_store_def example_entry_def example_stats_def SyncStats_def
        syncStatsOne_def example_running_def example_exited_def example_getStats_def
        UpdateStats_def storeStats_def example_sample_def Let_def float64_zero_def)

section \<open>Display order\<close>

lemma getStatusPriority_spec: "getStatusPriority st = int (spec_priority st)"
  by (simp add: getStatusPriority_def spec_priority_def StateStarting_def StateStopping_def)

lemma sortContainers_less_key:
  "sortContainers_less a b \<longleftrightarrow> spec_display_key a < spec_display_key b"
  by (auto simp: sortContainers_less_def spec_display_key_def getStatusPriority_spec Let_def
        less_prod_def word_less_def word_uint_eq_iff
      split: option.splits)

lemma sortSlice_insert_mset:
  "mset (sortSlice_insert lessf x xs) = add_mset x (mset xs)"
  by (induction xs) simp_all

lemma sortSlice_insert_set: "set (sortSlice_insert lessf x xs) = insert x (set xs)"
  by (induction xs) auto

lemma sortSlice_insert_sorted:
  fixes key :: "'a \<Rightarrow> 'k::linorder"
  assumes "\<And>a b. lessf a b \<longleftrightarrow> key a < key b"
    and "sorted (map key xs)"
  shows "sorted (map key (sortSlice_insert lessf x xs))"
  using assms(2)
proof (induction xs)
  case Nil
  then show ?case by simp
next
  case (Cons y ys)
  show ?case
  proof (cases "lessf x y")
    case True
    with Cons.prems assms(1) show ?thesis by (auto simp: less_imp_le order_trans [OF less_imp_le])
  next
    case False
    with Cons assms(1) show ?thesis
      by (auto simp: sortSlice_insert_set not_less)
  qed
qed

lemma sortSlice_sorted:
  fixes key :: "'a \<Rightarrow> 'k::linorder"
  assumes "\<And>a b. lessf a b \<longleftrightarrow> key a < key b"
  shows "sorted (map key (sortSlice lessf xs))"
  unfolding sortSlice_def
  by (induction xs) (simp_all add: sortSlice_insert_sorted [OF assms])

lemma sortSlice_mset: "mset (sortSlice lessf xs) = mset xs"
  unfolding sortSlice_def
  by (induction xs) (simp_all add: sortSlice_insert_mset)

text \<open>
  Claim C6. The comparison function of \<open>sortContainers\<close> is the strict order of the
  keys of the specification: status priority, then stats before no stats and larger
  memory usage first, then later creation first. The list that the service returns is
  the list of the store rearranged, with the keys in ascending order.
\<close>

theorem service_List_sorted:
  "sorted (map spec_display_key (service_List s now ks)) \<and>
   mset (service_List s now ks) = mset (List s now ks) \<and>
   (\<forall>a b. sortContainers_less a b \<longleftrightarrow> spec_display_key a < spec_display_key b)"
  by (simp add: service_List_def sortContainers_def sortSlice_mset
        sortSlice_sorted [OF sortContainers_less_key] sortContainers_less_key)

text \<open>
  The example of the specification: a running entry with stats, a stopping, a starting
  and an exited entry come out in this order.
\<close>

lemma sortContainers_example:
  "map ID (sortContainers
     [ContainerData_zero\<lparr>ID := ''D'', State := ''exited''\<rparr>,
      ContainerData_zero\<lparr>ID := ''C'', State := ''starting''\<rparr>,
      ContainerData_zero\<lparr>ID := ''B'', State := ''stopping''\<rparr>,
      ContainerData_zero\<lparr>ID := ''A'', State := ''running'',
        Stats := Some (Stats_zero\<lparr>Memory_Usage := 100\<rparr>)\<rparr>])
   = [''A'', ''B'', ''C'', ''D'']"
  by (simp add: sortContainers_def sortSlice_def sortContainers_less_def getStatusPriority_def
        ContainerData_zero_def StateStarting_def StateStopping_def)

end
